theory Spec2Isabelle
  imports Main "HOL-Library.Sublist"
begin

section \<open>Knowledge-graph view (static/js/knowledge-graph.js)\<close>

text \<open>
  The script keeps four globals (\<open>network\<close>, \<open>nodes\<close>, \<open>edges\<close>, \<open>graphData\<close>) and
  writes to a handful of DOM elements. Every function of the script becomes a function from
  the state to an outcome: the state it leaves, the calls it made on the outside world
  (\<open>alert\<close>, \<open>fetch\<close>, the camera of the drawing library, the download link), and the
  exception it ends with, if any. State changes made before an exception stay made, as
  in JavaScript.

  Strings are \<open>string\<close>s of bytes: a JavaScript string stands as its UTF-8 encoding, and
  the Chinese literals of the script are written as their bytes. On well-formed strings a
  string occurs in another as a run of UTF-16 code units exactly when its encoding occurs
  in the other's encoding as a run of bytes.
\<close>

subsection \<open>Strings\<close>

text \<open>
  The characters \<open>String.prototype.trim\<close> removes, each as its UTF-8 encoding: the
  WhiteSpace and LineTerminator code points of ECMAScript, that is U+0009 to U+000D,
  U+0020, U+00A0, U+1680, U+2000 to U+200A, U+2028, U+2029, U+202F, U+205F, U+3000 and
  U+FEFF.
\<close>

definition white_space :: "string list" where
  "white_space =
     [[CHR 0x09], [CHR 0x0A], [CHR 0x0B], [CHR 0x0C], [CHR 0x0D], [CHR 0x20],
      [CHR 0xC2, CHR 0xA0],
      [CHR 0xE1, CHR 0x9A, CHR 0x80],
      [CHR 0xE2, CHR 0x80, CHR 0x80], [CHR 0xE2, CHR 0x80, CHR 0x81],
      [CHR 0xE2, CHR 0x80, CHR 0x82], [CHR 0xE2, CHR 0x80, CHR 0x83],
      [CHR 0xE2, CHR 0x80, CHR 0x84], [CHR 0xE2, CHR 0x80, CHR 0x85],
      [CHR 0xE2, CHR 0x80, CHR 0x86], [CHR 0xE2, CHR 0x80, CHR 0x87],
      [CHR 0xE2, CHR 0x80, CHR 0x88], [CHR 0xE2, CHR 0x80, CHR 0x89],
      [CHR 0xE2, CHR 0x80, CHR 0x8A],
      [CHR 0xE2, CHR 0x80, CHR 0xA8], [CHR 0xE2, CHR 0x80, CHR 0xA9],
      [CHR 0xE2, CHR 0x80, CHR 0xAF],
      [CHR 0xE2, CHR 0x81, CHR 0x9F],
      [CHR 0xE3, CHR 0x80, CHR 0x80],
      [CHR 0xEF, CHR 0xBB, CHR 0xBF]]"

text \<open>Removing, from the front of a string, every leading occurrence of one of \<open>ws\<close>.\<close>

function strip :: "string list \<Rightarrow> string \<Rightarrow> string" where
  "strip ws s =
     (case find (\<lambda>w. w \<noteq> [] \<and> prefix w s) ws of
        None \<Rightarrow> s
      | Some w \<Rightarrow> strip ws (drop (length w) s))"
  by pat_completeness auto
termination
proof (relation "measure (\<lambda>(ws, s). length s)")
  show "wf (measure (\<lambda>(ws, s). length s))" by simp
next
  fix ws :: "string list" and s w :: string
  assume "find (\<lambda>w. w \<noteq> [] \<and> prefix w s) ws = Some w"
  then have "w \<noteq> []" and "prefix w s"
    by (auto simp: find_Some_iff)
  then have "length (drop (length w) s) < length s"
    by (cases w) (auto simp: prefix_def)
  then show "((ws, drop (length w) s), (ws, s)) \<in> measure (\<lambda>(ws, s). length s)"
    by simp
qed

declare strip.simps [simp del]

text \<open>\<open>s.trim()\<close>: white space is removed at the front, then at the end.\<close>

definition trim :: "string \<Rightarrow> string" where
  "trim s = rev (strip (map rev white_space) (rev (strip white_space s)))"

text \<open>
  \<open>String.prototype.toLowerCase\<close> is a built-in of the language whose table is the Unicode
  case mapping. The model takes it as a parameter, named \<open>toLowerCase\<close>, of every function
  that calls it, and the properties below hold for every function in its place. On a
  string of ASCII characters the built-in lowers the letters A to Z and leaves the rest;
  the scenarios, whose labels and queries are ASCII, are run with that function.
\<close>

definition ascii_lower_char :: "char \<Rightarrow> char" where
  "ascii_lower_char c =
     (case map_of (zip ''ABCDEFGHIJKLMNOPQRSTUVWXYZ'' ''abcdefghijklmnopqrstuvwxyz'') c of
        Some l \<Rightarrow> l
      | None \<Rightarrow> c)"

definition toLowerCase_ascii :: "string \<Rightarrow> string" where
  "toLowerCase_ascii s = map ascii_lower_char s"

text \<open>\<open>s.includes(k)\<close>: \<open>k\<close> occurs in \<open>s\<close> as a contiguous run.\<close>

definition includes_str :: "string \<Rightarrow> string \<Rightarrow> bool" where
  "includes_str s k = sublist k s"

subsection \<open>The export payload (GET /api/knowledge-graph/export)\<close>

text \<open>
  \<open>{id, label, type, description?, source_document?}\<close>; node ids are numbers or strings,
  the model is generic in their type.
\<close>

record 'i raw_node =
  node_id :: 'i
  label :: string
  node_type :: string
  description :: "string option"
  source_document :: "string option"

text \<open>\<open>{source, target, relation, description?}\<close>\<close>

record 'i raw_edge =
  source :: 'i
  target :: 'i
  relation :: string
  edge_description :: "string option"

text \<open>
  The parsed body \<open>result\<close>. \<open>res_success\<close> is the truthiness of \<open>result.success\<close>;
  \<open>res_nodes\<close> and \<open>res_edges\<close> are \<open>None\<close> when the field is missing (then \<open>.map\<close>
  throws a TypeError).
\<close>

record 'i export =
  res_success :: bool
  res_error :: "string option"
  res_nodes :: "'i raw_node list option"
  res_edges :: "'i raw_edge list option"
  res_nodes_count :: "int option"
  res_edges_count :: "int option"

text \<open>
  What the two awaits of \<open>loadGraph\<close> deliver: \<open>fetch\<close> or \<open>response.json()\<close> rejects
  with an error message (network failure, body that is not JSON), or the parsed body.
  (A body that parses to \<open>null\<close> ends in the same \<open>catch\<close> block as a rejection.)
\<close>

datatype 'i response = Rejected string | Payload "'i export"

subsection \<open>Items of the two vis.DataSet stores\<close>

text \<open>
  The value of a \<open>color\<close> field: a colour string, or the member that the table
  \<open>typeColors\<close> inherits from \<open>Object.prototype\<close> under the given name (a function or an
  object, not a colour).
\<close>

datatype js_color = Hex string | Inherited string

text \<open>
  A node of \<open>nodesArray\<close> (ll. 137-145) has the fields of the exported node, a tooltip
  \<open>title\<close> and a \<open>color\<close>; \<open>borderWidth\<close> is absent until a search sets it.
\<close>

record 'i node = "'i raw_node" +
  title :: string
  color :: js_color
  borderWidth :: "nat option"

text \<open>An edge of \<open>edgesArray\<close> (ll. 148-154): \<open>{id, from, to, label, title}\<close>.\<close>

record 'i edge =
  edge_id :: nat
  edge_from :: 'i
  edge_to :: 'i
  edge_label :: string
  edge_title :: string

subsection \<open>typeColors\<close>

definition typeColors :: "(string \<times> string) list" where
  "typeColors =
    [([CHR 0xE5, CHR 0x85, CHR 0xAC, CHR 0xE5, CHR 0x8F, CHR 0xB8, CHR ''/'',
       CHR 0xE7, CHR 0xBB, CHR 0x84, CHR 0xE7, CHR 0xBB, CHR 0x87], ''#FF6B6B''),
     ([CHR 0xE4, CHR 0xBA, CHR 0xBA, CHR 0xE7, CHR 0x89, CHR 0xA9], ''#4ECDC4''),
     ([CHR 0xE4, CHR 0xBA, CHR 0xA7, CHR 0xE5, CHR 0x93, CHR 0x81, CHR ''/'',
       CHR 0xE6, CHR 0x9C, CHR 0x8D, CHR 0xE5, CHR 0x8A, CHR 0xA1], ''#45B7D1''),
     ([CHR 0xE6, CHR 0x8A, CHR 0x80, CHR 0xE6, CHR 0x9C, CHR 0xAF, CHR ''/'',
       CHR 0xE6, CHR 0xA6, CHR 0x82, CHR 0xE5, CHR 0xBF, CHR 0xB5], ''#FFA07A''),
     ([CHR 0xE5, CHR 0x9C, CHR 0xB0, CHR 0xE7, CHR 0x82, CHR 0xB9], ''#98D8C8''),
     ([CHR 0xE6, CHR 0x97, CHR 0xB6, CHR 0xE9, CHR 0x97, CHR 0xB4], ''#DDA15E''),
     ([CHR 0xE9, CHR 0xA1, CHR 0xB9, CHR 0xE7, CHR 0x9B, CHR 0xAE, CHR ''/'',
       CHR 0xE6, CHR 0x96, CHR 0xB9, CHR 0xE6, CHR 0xA1, CHR 0x88], ''#F7DC6F''),
     (''Unknown'', ''#B8B8B8'')]"

text \<open>
  The names under which any object literal finds a member of \<open>Object.prototype\<close>: all
  of them functions, but \<open>__proto__\<close>, which is the prototype object; all truthy.
\<close>

definition object_prototype :: "string list" where
  "object_prototype =
     [''constructor'', ''hasOwnProperty'', ''isPrototypeOf'', ''propertyIsEnumerable'',
      ''toLocaleString'', ''toString'', ''valueOf'', ''__proto__'',
      ''__defineGetter__'', ''__defineSetter__'', ''__lookupGetter__'', ''__lookupSetter__'']"

text \<open>
  \<open>typeColors[type] || typeColors['Unknown']\<close>, the expression of ll. 141, 259 and 282:
  the table's own entry, else the inherited member of that name, else the entry of
  \<open>Unknown\<close>, which is \<open>#B8B8B8\<close>.
\<close>

definition colorFor :: "string \<Rightarrow> js_color" where
  "colorFor t =
     (case map_of typeColors t of
        Some c \<Rightarrow> Hex c
      | None \<Rightarrow> if t \<in> set object_prototype then Inherited t else Hex ''#B8B8B8'')"

subsection \<open>vis.DataSet\<close>

text \<open>
  The drawing library is not part of the repository. Of its \<open>DataSet\<close> the script uses
  the constructor, \<open>get(id)\<close>, \<open>get({filter})\<close>, \<open>forEach\<close> and \<open>update\<close>. A data set
  is the list of its items in insertion order. The constructor adds the items one by one
  and throws when an id is already there; \<open>get(id)\<close> is the item or \<open>null\<close>;
  \<open>get({filter})\<close> and \<open>forEach\<close> go through the items in insertion order; \<open>update\<close>
  merges the given fields into the item that has the id.
\<close>

definition new_DataSet :: "('a \<Rightarrow> 'k) \<Rightarrow> 'a list \<Rightarrow> 'a list option" where
  "new_DataSet key items = (if distinct (map key items) then Some items else None)"

definition get :: "'i \<Rightarrow> ('i, 'a) node_scheme list \<Rightarrow> ('i, 'a) node_scheme option" where
  "get i ns = find (\<lambda>n. node_id n = i) ns"

text \<open>
  \<open>nodes.update({id: i, ...})\<close>, with the fields to merge given as a function on the item.
  The script only updates ids it has just read from the set, so the branch of the library
  that inserts an unknown id is never taken.
\<close>

definition update :: "'i \<Rightarrow> ('i node \<Rightarrow> 'i node) \<Rightarrow> 'i node list \<Rightarrow> 'i node list" where
  "update i patch ns = map (\<lambda>n. if node_id n = i then patch n else n) ns"

text \<open>
  \<open>nodes.forEach(callback)\<close> where the callback updates the set: the ids are listed
  first, and each item is read from the set when its turn comes. The loop state is the
  set together with the local variables the callback writes (\<open>foundNodes\<close>).
\<close>

fun forEach :: "'i list \<Rightarrow> ('i node \<Rightarrow> 'i node list \<times> 'b \<Rightarrow> 'i node list \<times> 'b)
    \<Rightarrow> 'i node list \<times> 'b \<Rightarrow> 'i node list \<times> 'b" where
  "forEach [] callback st = st"
| "forEach (i # ids) callback st =
     (case get i (fst st) of
        None \<Rightarrow> forEach ids callback st
      | Some n \<Rightarrow> forEach ids callback (callback n st))"

subsection \<open>State, effects, outcomes\<close>

datatype network = Network

datatype container = Blank | Loading | Canvas

text \<open>
  What \<open>showEntityDetails\<close> writes into \<open>#entityDetails\<close>, without the constant markup:
  the header (label, type), the description and the provenance line when they are truthy,
  and one triple (left label, relation, right label) per outgoing and per incoming edge.
  A relation section is there when its list is not empty; the "no relations" paragraph
  when both are empty.
\<close>

record panel =
  p_label :: string
  p_type :: string
  p_description :: "string option"
  p_source_document :: "string option"
  p_outgoing :: "(string \<times> string \<times> string) list"
  p_incoming :: "(string \<times> string \<times> string) list"

record 'i state =
  network :: "network option"
  nodes :: "'i node list option"
  edges :: "'i edge list option"
  graphData :: "'i export option"
  mynetwork :: container
  nodeCount :: "int option"
  edgeCount :: "int option"
  typeCount :: "nat option"
  entityDetails :: "panel option"

datatype js_error = TypeError | DuplicateId | RejectedWith string

datatype 'i effect =
    Fetch
  | AlertLoadFailed string
  | AlertLoadError js_error
  | AlertLoadFirst
  | ConsoleError js_error
  | NewNetwork
  | SetData
  | Focus 'i
  | Fit
  | Download "'i export"

type_synonym 'i outcome = "'i state \<times> 'i effect list \<times> js_error option"

definition state_of :: "'i outcome \<Rightarrow> 'i state" where
  "state_of r = fst r"

definition effects_of :: "'i outcome \<Rightarrow> 'i effect list" where
  "effects_of r = fst (snd r)"

definition thrown :: "'i outcome \<Rightarrow> js_error option" where
  "thrown r = snd (snd r)"

text \<open>The page before the first load: the four globals are \<open>null\<close>.\<close>

definition init :: "'i state" where
  "init = \<lparr>network = None, nodes = None, edges = None, graphData = None,
            mynetwork = Blank, nodeCount = None, edgeCount = None, typeCount = None,
            entityDetails = None\<rparr>"

text \<open>JavaScript truthiness of an optional string: present and not empty.\<close>

definition truthy :: "string option \<Rightarrow> bool" where
  "truthy v = (case v of None \<Rightarrow> False | Some x \<Rightarrow> x \<noteq> [])"

text \<open>\<open>a || b\<close> on an optional string.\<close>

definition or_else :: "string option \<Rightarrow> string \<Rightarrow> string" where
  "or_else v d = (case v of None \<Rightarrow> d | Some x \<Rightarrow> if x = [] then d else x)"

text \<open>\<open>n || 0\<close> on an optional number.\<close>

definition or_zero :: "int option \<Rightarrow> int" where
  "or_zero v = (case v of None \<Rightarrow> 0 | Some n \<Rightarrow> if n = 0 then 0 else n)"

subsection \<open>loadGraph\<close>

definition unknown_error :: string where
  "unknown_error = [CHR 0xE6, CHR 0x9C, CHR 0xAA, CHR 0xE7, CHR 0x9F, CHR 0xA5,
                    CHR 0xE9, CHR 0x94, CHR 0x99, CHR 0xE8, CHR 0xAF, CHR 0xAF]"

definition showLoading :: "'i state \<Rightarrow> 'i state" where
  "showLoading s = s\<lparr>mynetwork := Loading\<rparr>"

definition toNode :: "'i raw_node \<Rightarrow> 'i node" where
  "toNode node =
     \<lparr>node_id = node_id node, label = label node, node_type = node_type node,
      description = description node, source_document = source_document node,
      title = node_type node @ [CHR 0x0A] @ or_else (description node) [],
      color = colorFor (node_type node), borderWidth = None\<rparr>"

definition toEdge :: "'i raw_edge \<Rightarrow> nat \<Rightarrow> 'i edge" where
  "toEdge edge index =
     \<lparr>edge_id = index, edge_from = source edge, edge_to = target edge,
      edge_label = relation edge,
      edge_title = or_else (edge_description edge) (relation edge)\<rparr>"

text \<open>
  \<open>updateStats(data)\<close>: the two counts are written before \<open>data.nodes.map\<close> is
  evaluated, so they stay written if that throws.
\<close>

definition updateStats :: "'i export \<Rightarrow> 'i state \<Rightarrow> 'i state \<times> js_error option" where
  "updateStats data s =
     (let s1 = s\<lparr>nodeCount := Some (or_zero (res_nodes_count data))\<rparr>;
          s2 = s1\<lparr>edgeCount := Some (or_zero (res_edges_count data))\<rparr>
      in case res_nodes data of
           None \<Rightarrow> (s2, Some TypeError)
         | Some ns \<Rightarrow>
             (s2\<lparr>typeCount := Some (card (set (map node_type ns)))\<rparr>, None))"

text \<open>
  \<open>initNetwork\<close>, reached only after \<open>new vis.DataSet\<close> has succeeded, so the library
  is loaded: the network is created on the container \<open>#mynetwork\<close>, which then shows its
  canvas, with the data sets held in \<open>nodes\<close> and \<open>edges\<close>. The network keeps references to
  these two objects, so it has no copy of its own in the state.
\<close>

definition initNetwork :: "'i state \<Rightarrow> 'i outcome" where
  "initNetwork s = (s\<lparr>network := Some Network, mynetwork := Canvas\<rparr>, [NewNetwork], None)"

text \<open>The \<open>catch\<close> block of \<open>loadGraph\<close> (ll. 171-175).\<close>

definition catch_load :: "js_error \<Rightarrow> 'i state \<Rightarrow> 'i outcome" where
  "catch_load e s = (s, [ConsoleError e, AlertLoadError e], None)"

text \<open>
  \<open>loadGraph\<close> runs in two turns of the event loop. The first, up to the \<open>await\<close> of
  l. 125, shows the spinner and sends the request.
\<close>

definition loadGraph_request :: "'i state \<Rightarrow> 'i outcome" where
  "loadGraph_request s = (showLoading s, [Fetch], None)"

text \<open>The second turn starts when the response is there (ll. 126-175).\<close>

definition loadGraph_resume :: "'i response \<Rightarrow> 'i state \<Rightarrow> 'i outcome" where
  "loadGraph_resume resp s =
     (case resp of
        Rejected msg \<Rightarrow> catch_load (RejectedWith msg) s
      | Payload result \<Rightarrow>
          if \<not> res_success result then
            (s, [AlertLoadFailed (or_else (res_error result) unknown_error)], None)
          else
            (let s1 = s\<lparr>graphData := Some result\<rparr> in
             case res_nodes result of
               None \<Rightarrow> catch_load TypeError s1
             | Some rns \<Rightarrow>
                 (case res_edges result of
                    None \<Rightarrow> catch_load TypeError s1
                  | Some res \<Rightarrow>
                      (let nodesArray = map toNode rns;
                           edgesArray = map (\<lambda>(index, edge). toEdge edge index) (enumerate 0 res)
                       in case new_DataSet node_id nodesArray of
                            None \<Rightarrow> catch_load DuplicateId s1
                          | Some ns \<Rightarrow>
                              (let s2 = s1\<lparr>nodes := Some ns\<rparr> in
                               case new_DataSet edge_id edgesArray of
                                 None \<Rightarrow> catch_load DuplicateId s2
                               | Some es \<Rightarrow>
                                   (let s3 = s2\<lparr>edges := Some es\<rparr> in
                                    case updateStats result s3 of
                                      (s4, Some e) \<Rightarrow> catch_load e s4
                                    | (s4, None) \<Rightarrow>
                                        if network s4 = None then initNetwork s4
                                        else (s4, [SetData], None)))))))"

text \<open>A load whose response arrives before anything else happens.\<close>

definition loadGraph :: "'i response \<Rightarrow> 'i state \<Rightarrow> 'i outcome" where
  "loadGraph resp s =
     (let r1 = loadGraph_request s;
          r2 = loadGraph_resume resp (state_of r1)
      in (state_of r2, effects_of r1 @ effects_of r2, thrown r2))"

subsection \<open>showEntityDetails\<close>

definition connectedEdges :: "'i \<Rightarrow> 'i edge list \<Rightarrow> 'i edge list" where
  "connectedEdges nodeId es = filter (\<lambda>edge. edge_from edge = nodeId \<or> edge_to edge = nodeId) es"

definition outgoing :: "'i \<Rightarrow> 'i edge list \<Rightarrow> 'i edge list" where
  "outgoing nodeId es = filter (\<lambda>e. edge_from e = nodeId) (connectedEdges nodeId es)"

definition incoming :: "'i \<Rightarrow> 'i edge list \<Rightarrow> 'i edge list" where
  "incoming nodeId es = filter (\<lambda>e. edge_to e = nodeId) (connectedEdges nodeId es)"

text \<open>
  The two \<open>forEach\<close> loops of ll. 214-223 and 229-238. \<open>nodes.get\<close> of an id that is not
  in the set is \<open>null\<close>, and reading \<open>.label\<close> of it throws: the result is \<open>None\<close>.
\<close>

definition outgoing_items :: "'i node \<Rightarrow> 'i node list \<Rightarrow> 'i edge list \<Rightarrow> (string \<times> string \<times> string) list option" where
  "outgoing_items node ns es =
     those (map (\<lambda>edge. map_option (\<lambda>targetNode. (label node, edge_label edge, label targetNode))
                                      (get (edge_to edge) ns)) es)"

definition incoming_items :: "'i node \<Rightarrow> 'i node list \<Rightarrow> 'i edge list \<Rightarrow> (string \<times> string \<times> string) list option" where
  "incoming_items node ns es =
     those (map (\<lambda>edge. map_option (\<lambda>sourceNode. (label sourceNode, edge_label edge, label node))
                                      (get (edge_from edge) ns)) es)"

definition showEntityDetails :: "'i \<Rightarrow> 'i state \<Rightarrow> 'i outcome" where
  "showEntityDetails nodeId s =
     (case nodes s of
        None \<Rightarrow> (s, [], Some TypeError)
      | Some ns \<Rightarrow>
          (case get nodeId ns of
             None \<Rightarrow> (s, [], None)
           | Some node \<Rightarrow>
               (case edges s of
                  None \<Rightarrow> (s, [], Some TypeError)
                | Some es \<Rightarrow>
                    (case outgoing_items node ns (outgoing nodeId es) of
                       None \<Rightarrow> (s, [], Some TypeError)
                     | Some out \<Rightarrow>
                         (case incoming_items node ns (incoming nodeId es) of
                            None \<Rightarrow> (s, [], Some TypeError)
                          | Some inc \<Rightarrow>
                              (s\<lparr>entityDetails := Some
                                   \<lparr>p_label = label node, p_type = node_type node,
                                    p_description =
                                      (if truthy (description node) then description node else None),
                                    p_source_document =
                                      (if truthy (source_document node) then source_document node
                                       else None),
                                    p_outgoing = out, p_incoming = inc\<rparr>\<rparr>,
                               [], None))))))"

subsection \<open>searchEntity\<close>

text \<open>The callback of the reset loop (ll. 256-261).\<close>

definition reset_node :: "'i node \<Rightarrow> 'i node list \<times> unit \<Rightarrow> 'i node list \<times> unit" where
  "reset_node node st =
     (update (node_id node) (\<lambda>n. n\<lparr>color := colorFor (node_type node)\<rparr>) (fst st), ())"

text \<open>The condition of l. 271-272.\<close>

definition matches :: "(string \<Rightarrow> string) \<Rightarrow> string \<Rightarrow> 'i node \<Rightarrow> bool" where
  "matches toLowerCase keyword node =
     (includes_str (toLowerCase (label node)) keyword \<or>
      (case description node of
         None \<Rightarrow> False
       | Some d \<Rightarrow> d \<noteq> [] \<and> includes_str (toLowerCase d) keyword))"

text \<open>The callback of the highlight loop (ll. 270-286); the second component is \<open>foundNodes\<close>.\<close>

definition highlight_node :: "(string \<Rightarrow> string) \<Rightarrow> string \<Rightarrow> 'i node \<Rightarrow> 'i node list \<times> 'i list
    \<Rightarrow> 'i node list \<times> 'i list" where
  "highlight_node toLowerCase keyword node st =
     (if matches toLowerCase keyword node then
        (update (node_id node) (\<lambda>n. n\<lparr>color := Hex ''#FF0000'', borderWidth := Some 4\<rparr>) (fst st),
         snd st @ [node_id node])
      else
        (update (node_id node)
           (\<lambda>n. n\<lparr>color := colorFor (node_type node), borderWidth := Some 2\<rparr>) (fst st),
         snd st))"

definition searchEntity :: "(string \<Rightarrow> string) \<Rightarrow> string \<Rightarrow> 'i state \<Rightarrow> 'i outcome" where
  "searchEntity toLowerCase v s =
     (let keyword = toLowerCase (trim v) in
      if keyword = [] then
        (case nodes s of
           None \<Rightarrow> (s, [], None)
         | Some ns \<Rightarrow>
             (s\<lparr>nodes := Some (fst (forEach (map node_id ns) reset_node (ns, ())))\<rparr>, [], None))
      else
        (case nodes s of
           None \<Rightarrow> (s, [], None)
         | Some ns \<Rightarrow>
             (let st = forEach (map node_id ns) (highlight_node toLowerCase keyword) (ns, []);
                  foundNodes = snd st;
                  s1 = s\<lparr>nodes := Some (fst st)\<rparr>
              in if length foundNodes = 1 \<and> network s1 \<noteq> None then
                   (let r = showEntityDetails (hd foundNodes) s1
                    in (state_of r, Focus (hd foundNodes) # effects_of r, thrown r))
                 else (s1, [], None))))"

subsection \<open>fitGraph, exportGraph, the handlers of the network\<close>

definition fitGraph :: "'i state \<Rightarrow> 'i outcome" where
  "fitGraph s = (if network s \<noteq> None then (s, [Fit], None) else (s, [], None))"

text \<open>
  The download carries \<open>JSON.stringify(graphData, null, 2)\<close>, a function of the cached
  payload alone; the effect records the payload that is serialised.
\<close>

definition exportGraph :: "'i state \<Rightarrow> 'i outcome" where
  "exportGraph s =
     (case graphData s of
        None \<Rightarrow> (s, [AlertLoadFirst], None)
      | Some g \<Rightarrow> (s, [Download g], None))"

text \<open>The handlers bound in \<open>initNetwork\<close>; the argument is \<open>params.nodes\<close>.\<close>

definition on_click :: "'i list \<Rightarrow> 'i state \<Rightarrow> 'i outcome" where
  "on_click params_nodes s =
     (if length params_nodes > 0 then showEntityDetails (hd params_nodes) s else (s, [], None))"

definition on_doubleClick :: "'i list \<Rightarrow> 'i state \<Rightarrow> 'i outcome" where
  "on_doubleClick params_nodes s =
     (if length params_nodes > 0 then (s, [Focus (hd params_nodes)], None) else (s, [], None))"

subsection \<open>The event loop\<close>

text \<open>
  The page is single-threaded: each event runs to completion. A call of \<open>loadGraph\<close> is
  suspended at its \<open>await\<close> until its response arrives; the count of suspended calls is
  kept beside the state. Nothing in the script reads it. An exception that leaves a
  handler ends the handler and nothing else.
\<close>

datatype 'i event =
    Reload
  | Arrive "'i response"
  | Search string
  | Click "'i list"
  | DoubleClick "'i list"
  | FitView
  | Export

fun step :: "(string \<Rightarrow> string) \<Rightarrow> 'i event \<Rightarrow> 'i state \<times> nat
    \<Rightarrow> ('i state \<times> nat) \<times> 'i effect list" where
  "step toLowerCase Reload (s, pending) =
     (let r = loadGraph_request s in ((state_of r, Suc pending), effects_of r))"
| "step toLowerCase (Arrive resp) (s, pending) =
     (if pending = 0 then ((s, pending), [])
      else (let r = loadGraph_resume resp s in ((state_of r, pending - 1), effects_of r)))"
| "step toLowerCase (Search v) (s, pending) =
     (let r = searchEntity toLowerCase v s in ((state_of r, pending), effects_of r))"
| "step toLowerCase (Click ps) (s, pending) =
     (case network s of
        None \<Rightarrow> ((s, pending), [])
      | Some _ \<Rightarrow> (let r = on_click ps s in ((state_of r, pending), effects_of r)))"
| "step toLowerCase (DoubleClick ps) (s, pending) =
     (case network s of
        None \<Rightarrow> ((s, pending), [])
      | Some _ \<Rightarrow> (let r = on_doubleClick ps s in ((state_of r, pending), effects_of r)))"
| "step toLowerCase FitView (s, pending) =
     (let r = fitGraph s in ((state_of r, pending), effects_of r))"
| "step toLowerCase Export (s, pending) =
     (let r = exportGraph s in ((state_of r, pending), effects_of r))"

fun run :: "(string \<Rightarrow> string) \<Rightarrow> 'i event list \<Rightarrow> 'i state \<times> nat
    \<Rightarrow> ('i state \<times> nat) \<times> 'i effect list" where
  "run toLowerCase [] c = (c, [])"
| "run toLowerCase (e # es) c =
     (let (c1, fx1) = step toLowerCase e c; (c2, fx2) = run toLowerCase es c1
      in (c2, fx1 @ fx2))"

subsection \<open>The snapshots of the specification's scenarios\<close>

definition type_org :: string where
  "type_org = [CHR 0xE5, CHR 0x85, CHR 0xAC, CHR 0xE5, CHR 0x8F, CHR 0xB8, CHR ''/'',
               CHR 0xE7, CHR 0xBB, CHR 0x84, CHR 0xE7, CHR 0xBB, CHR 0x87]"

definition type_person :: string where
  "type_person = [CHR 0xE4, CHR 0xBA, CHR 0xBA, CHR 0xE7, CHR 0x89, CHR 0xA9]"

definition employs :: string where
  "employs = [CHR 0xE9, CHR 0x9B, CHR 0x87, CHR 0xE7, CHR 0x94, CHR 0xA8]"

definition acme :: "int raw_node" where
  "acme = \<lparr>node_id = 1, label = ''Acme'', node_type = type_org,
            description = None, source_document = None\<rparr>"

definition alice :: "int raw_node" where
  "alice = \<lparr>node_id = 2, label = ''Alice'', node_type = type_person,
             description = None, source_document = None\<rparr>"

text \<open>Nodes 1 (Acme) and 2 (Alice), one edge from 1 to 2; the body carries no counts.\<close>

definition acme_alice :: "int export" where
  "acme_alice =
     \<lparr>res_success = True, res_error = None, res_nodes = Some [acme, alice],
      res_edges = Some [\<lparr>source = 1, target = 2, relation = employs, edge_description = None\<rparr>],
      res_nodes_count = None, res_edges_count = None\<rparr>"

text \<open>The same two nodes, and one edge whose source 99 is not among them.\<close>

definition dangling :: "int export" where
  "dangling =
     \<lparr>res_success = True, res_error = None, res_nodes = Some [acme, alice],
      res_edges = Some [\<lparr>source = 99, target = 2, relation = employs, edge_description = None\<rparr>],
      res_nodes_count = Some 2, res_edges_count = Some 1\<rparr>"

text \<open>One node with an edge to itself.\<close>

definition self_loop :: "int export" where
  "self_loop =
     \<lparr>res_success = True, res_error = None, res_nodes = Some [acme],
      res_edges = Some [\<lparr>source = 1, target = 1, relation = employs, edge_description = None\<rparr>],
      res_nodes_count = Some 1, res_edges_count = Some 1\<rparr>"

text \<open>A body that says \<open>success: true\<close> and has no \<open>nodes\<close>.\<close>

definition no_nodes :: "int export" where
  "no_nodes =
     \<lparr>res_success = True, res_error = None, res_nodes = None, res_edges = None,
      res_nodes_count = None, res_edges_count = None\<rparr>"

text \<open>A body that reports a failure without a message.\<close>

definition failure :: "int export" where
  "failure =
     \<lparr>res_success = False, res_error = None, res_nodes = None, res_edges = None,
      res_nodes_count = None, res_edges_count = None\<rparr>"

text \<open>The page after the first load of the two-node snapshot.\<close>

definition loaded :: "int state" where
  "loaded = state_of (loadGraph (Payload acme_alice) init)"

section \<open>Properties\<close>

subsection \<open>The data set under the loops of searchEntity\<close>

lemma get_append_notin:
  "i \<notin> node_id ` set pre \<Longrightarrow> get i (pre @ post) = get i post"
  by (induction pre) (auto simp: get_def)

lemma update_notin: "i \<notin> node_id ` set ns \<Longrightarrow> update i p ns = ns"
  by (induction ns) (auto simp: update_def)

lemma update_append_notin:
  "i \<notin> node_id ` set pre \<Longrightarrow> update i p (pre @ post) = pre @ update i p post"
  by (induction pre) (auto simp: update_def)

text \<open>
  A loop whose callback updates the item it is given, and keeps its id, rewrites the items
  one by one: with distinct ids it is a \<open>map\<close> over the set and a \<open>fold\<close> over the locals.
\<close>

lemma forEach_update:
  assumes cb: "\<And>n st. callback n st = (update (node_id n) (p n) (fst st), g n (snd st))"
    and keep: "\<And>n m. node_id (p n m) = node_id m"
  shows "distinct (map node_id post) \<Longrightarrow> node_id ` set pre \<inter> node_id ` set post = {} \<Longrightarrow>
     forEach (map node_id post) callback (pre @ post, acc)
       = (pre @ map (\<lambda>n. p n n) post, fold g post acc)"
proof (induction post arbitrary: pre acc)
  case Nil
  then show ?case by simp
next
  case (Cons n rest)
  have notin: "node_id n \<notin> node_id ` set pre" using Cons.prems(2) by auto
  have notin_rest: "node_id n \<notin> node_id ` set rest" using Cons.prems(1) by auto
  have g: "get (node_id n) (pre @ n # rest) = Some n"
    using notin by (simp add: get_append_notin) (simp add: get_def)
  have u: "update (node_id n) (p n) (pre @ n # rest) = (pre @ [p n n]) @ rest"
    using notin notin_rest
    by (simp add: update_append_notin) (simp add: update_def update_notin[unfolded update_def])
  have d: "distinct (map node_id rest)" using Cons.prems(1) by simp
  have disj: "node_id ` set (pre @ [p n n]) \<inter> node_id ` set rest = {}"
    using Cons.prems notin_rest by (auto simp: keep)
  show ?case
    using Cons.IH[OF d disj, of "g n acc"] by (simp add: g cb u)
qed

lemma forEach_highlight:
  assumes "distinct (map node_id ns)"
  shows "forEach (map node_id ns) (highlight_node toLowerCase k) (ns, acc) =
     (map (\<lambda>n. if matches toLowerCase k n then n\<lparr>color := Hex ''#FF0000'', borderWidth := Some 4\<rparr>
                else n\<lparr>color := colorFor (node_type n), borderWidth := Some 2\<rparr>) ns,
      acc @ map node_id (filter (matches toLowerCase k) ns))"
proof -
  let ?p = "\<lambda>n m. if matches toLowerCase k n then m\<lparr>color := Hex ''#FF0000'', borderWidth := Some 4\<rparr>
                else m\<lparr>color := colorFor (node_type n), borderWidth := Some 2\<rparr>"
  let ?g = "\<lambda>n found. if matches toLowerCase k n then found @ [node_id n] else found"
  have cb: "\<And>n st. highlight_node toLowerCase k n st = (update (node_id n) (?p n) (fst st), ?g n (snd st))"
    by (auto simp: highlight_node_def update_def)
  have keep: "\<And>n m. node_id (?p n m) = node_id m" by simp
  have f: "fold ?g xs acc = acc @ map node_id (filter (matches toLowerCase k) xs)" for xs
    by (induction xs arbitrary: acc) auto
  have "forEach (map node_id ns) (highlight_node toLowerCase k) ([] @ ns, acc)
          = ([] @ map (\<lambda>n. ?p n n) ns, fold ?g ns acc)"
    by (rule forEach_update[where p = ?p and g = ?g, OF cb keep]) (use assms in auto)
  then show ?thesis by (simp add: f)
qed

lemma forEach_reset:
  assumes "distinct (map node_id ns)"
  shows "forEach (map node_id ns) reset_node (ns, ()) =
     (map (\<lambda>n. n\<lparr>color := colorFor (node_type n)\<rparr>) ns, ())"
proof -
  let ?p = "\<lambda>n m. m\<lparr>color := colorFor (node_type n)\<rparr>"
  have cb: "\<And>n st. reset_node n st = (update (node_id n) (?p n) (fst st), (\<lambda>n u. ()) n (snd st))"
    by (auto simp: reset_node_def)
  have keep: "\<And>n m. node_id (?p n m) = node_id m" by simp
  have "forEach (map node_id ns) reset_node ([] @ ns, ())
          = ([] @ map (\<lambda>n. ?p n n) ns, fold (\<lambda>n u. ()) ns ())"
    by (rule forEach_update[where p = ?p and g = "\<lambda>n u. ()", OF cb keep]) (use assms in auto)
  then show ?thesis by simp
qed

subsection \<open>A successful load\<close>

lemma edge_ids:
  "map edge_id (map (\<lambda>(index, edge). toEdge edge index) (enumerate k res)) = [k..<k + length res]"
  by (induction res arbitrary: k) (auto simp: toEdge_def upt_rec)

lemma node_ids: "map node_id (map toNode rns) = map node_id rns"
  by (simp add: toNode_def)

text \<open>
  When the body says success, has both arrays and no node id twice, the second turn of
  \<open>loadGraph\<close> replaces the two stores and the cached body, writes the statistics, and
  creates the network or hands it the new data.
\<close>

lemma loadGraph_resume_success:
  assumes "res_success r" "res_nodes r = Some rns" "res_edges r = Some res"
    "distinct (map node_id rns)"
  shows "loadGraph_resume (Payload r) s =
    (s\<lparr>graphData := Some r,
       nodes := Some (map toNode rns),
       edges := Some (map (\<lambda>(index, edge). toEdge edge index) (enumerate 0 res)),
       nodeCount := Some (or_zero (res_nodes_count r)),
       edgeCount := Some (or_zero (res_edges_count r)),
       typeCount := Some (card (set (map node_type rns))),
       network := Some Network,
       mynetwork := (if network s = None then Canvas else mynetwork s)\<rparr>,
     (if network s = None then [NewNetwork] else [SetData]), None)"
proof -
  have dn: "distinct (map node_id (map toNode rns))"
    using assms(4) by (simp only: node_ids)
  have de: "distinct (map edge_id (map (\<lambda>(index, edge). toEdge edge index) (enumerate 0 res)))"
    by (simp only: edge_ids) simp
  have net: "network s = None \<or> network s = Some Network"
    by (cases "network s") (auto intro: network.exhaust)
  show ?thesis
    using assms(1-3) dn de net
    by (auto simp add: loadGraph_resume_def new_DataSet_def updateStats_def Let_def initNetwork_def
        simp del: map_map)
qed

lemma loadGraph_success:
  assumes "res_success r" "res_nodes r = Some rns" "res_edges r = Some res"
    "distinct (map node_id rns)"
  shows "loadGraph (Payload r) s =
    (s\<lparr>graphData := Some r,
       nodes := Some (map toNode rns),
       edges := Some (map (\<lambda>(index, edge). toEdge edge index) (enumerate 0 res)),
       nodeCount := Some (or_zero (res_nodes_count r)),
       edgeCount := Some (or_zero (res_edges_count r)),
       typeCount := Some (card (set (map node_type rns))),
       network := Some Network,
       mynetwork := (if network s = None then Canvas else Loading)\<rparr>,
     Fetch # (if network s = None then [NewNetwork] else [SetData]), None)"
  using assms
  by (simp add: loadGraph_def loadGraph_request_def loadGraph_resume_success state_of_def
      effects_of_def thrown_def showLoading_def Let_def)

subsection \<open>The failing branches of a load\<close>

text \<open>A body that does not say success: the message is shown, nothing is written.\<close>

lemma loadGraph_resume_not_success:
  "\<not> res_success r \<Longrightarrow>
   loadGraph_resume (Payload r) s =
     (s, [AlertLoadFailed (or_else (res_error r) unknown_error)], None)"
  by (simp add: loadGraph_resume_def)

text \<open>No body at all: the \<open>catch\<close> block reports the error, nothing is written.\<close>

lemma loadGraph_resume_rejected:
  "loadGraph_resume (Rejected msg) s =
     (s, [ConsoleError (RejectedWith msg), AlertLoadError (RejectedWith msg)], None)"
  by (simp add: loadGraph_resume_def catch_load_def)

text \<open>
  A body that says success and has no \<open>nodes\<close>: \<open>graphData\<close> has been assigned (l. 134)
  when \<open>result.nodes.map\<close> throws (l. 137).
\<close>

lemma loadGraph_resume_no_nodes:
  "res_success r \<Longrightarrow> res_nodes r = None \<Longrightarrow>
   loadGraph_resume (Payload r) s =
     (s\<lparr>graphData := Some r\<rparr>, [ConsoleError TypeError, AlertLoadError TypeError], None)"
  by (simp add: loadGraph_resume_def catch_load_def)

subsection \<open>showEntityDetails\<close>

lemma showEntityDetails_effects: "effects_of (showEntityDetails i s) = []"
  by (simp add: showEntityDetails_def effects_of_def split: option.splits)

lemma showEntityDetails_globals:
  "nodes (state_of (showEntityDetails i s)) = nodes s \<and>
   edges (state_of (showEntityDetails i s)) = edges s \<and>
   network (state_of (showEntityDetails i s)) = network s \<and>
   graphData (state_of (showEntityDetails i s)) = graphData s"
  by (simp add: showEntityDetails_def state_of_def split: option.splits)

lemma those_map_Some:
  "(\<And>x. x \<in> set xs \<Longrightarrow> f x = Some (g x)) \<Longrightarrow> those (map f xs) = Some (map g xs)"
  by (induction xs) auto

lemma get_Some_iff: "(\<exists>n. get i ns = Some n) \<longleftrightarrow> i \<in> node_id ` set ns"
  by (induction ns) (auto simp: get_def)

lemma get_Some_D: "get i ns = Some n \<Longrightarrow> n \<in> set ns \<and> node_id n = i"
  by (induction ns) (auto simp: get_def split: if_splits)

lemma get_distinct: "distinct (map node_id ns) \<Longrightarrow> n \<in> set ns \<Longrightarrow> get (node_id n) ns = Some n"
  by (induction ns) (auto simp: get_def)

lemma get_map:
  "(\<And>n. node_id (f n) = node_id n) \<Longrightarrow> get i (map f ns) = map_option f (get i ns)"
  by (induction ns) (auto simp: get_def)

lemma showEntityDetails_opens:
  assumes "nodes s = Some ns" and "get i ns = Some node" and "edges s = Some es"
    and "\<forall>e\<in>set es. edge_from e = i \<or> edge_to e = i \<longrightarrow>
            edge_from e \<in> node_id ` set ns \<and> edge_to e \<in> node_id ` set ns"
  shows "thrown (showEntityDetails i s) = None \<and>
    (\<exists>p. entityDetails (state_of (showEntityDetails i s)) = Some p \<and>
         p_label p = label node \<and> p_type p = node_type node)"
proof -
  have "\<forall>e\<in>set (outgoing i es). \<exists>t. get (edge_to e) ns = Some t"
    using assms(4) by (auto simp: outgoing_def connectedEdges_def get_Some_iff)
  then have "\<exists>out. outgoing_items node ns (outgoing i es) = Some out"
    unfolding outgoing_items_def
    by (intro exI[of _ "map (\<lambda>e. (label node, edge_label e, label (the (get (edge_to e) ns)))) (outgoing i es)"]
          those_map_Some) auto
  moreover have "\<forall>e\<in>set (incoming i es). \<exists>t. get (edge_from e) ns = Some t"
    using assms(4) by (auto simp: incoming_def connectedEdges_def get_Some_iff)
  then have "\<exists>inc. incoming_items node ns (incoming i es) = Some inc"
    unfolding incoming_items_def
    by (intro exI[of _ "map (\<lambda>e. (label (the (get (edge_from e) ns)), edge_label e, label node)) (incoming i es)"]
          those_map_Some) auto
  ultimately show ?thesis
    using assms(1-3) by (auto simp: showEntityDetails_def thrown_def state_of_def)
qed

subsection \<open>searchEntity on a store with distinct ids\<close>

lemma searchEntity_nonempty:
  assumes "nodes s = Some ns" and "distinct (map node_id ns)"
    and "toLowerCase (trim q) = k" and "k \<noteq> []"
  shows "searchEntity toLowerCase q s =
    (let s1 = s\<lparr>nodes := Some (map (\<lambda>n. if matches toLowerCase k n
                         then n\<lparr>color := Hex ''#FF0000'', borderWidth := Some 4\<rparr>
                         else n\<lparr>color := colorFor (node_type n), borderWidth := Some 2\<rparr>) ns)\<rparr>;
         foundNodes = map node_id (filter (matches toLowerCase k) ns)
     in if length foundNodes = 1 \<and> network s \<noteq> None then
          (let r = showEntityDetails (hd foundNodes) s1
           in (state_of r, Focus (hd foundNodes) # effects_of r, thrown r))
        else (s1, [], None))"
  using assms by (simp add: searchEntity_def forEach_highlight Let_def)

lemma searchEntity_empty:
  assumes "nodes s = Some ns" and "distinct (map node_id ns)"
    and "toLowerCase (trim q) = []"
  shows "searchEntity toLowerCase q s =
    (s\<lparr>nodes := Some (map (\<lambda>n. n\<lparr>color := colorFor (node_type n)\<rparr>) ns)\<rparr>, [], None)"
  using assms by (simp add: searchEntity_def forEach_reset Let_def)

lemma matches_iff:
  "k \<noteq> [] \<Longrightarrow> toLowerCase [] = [] \<Longrightarrow> matches toLowerCase k n \<longleftrightarrow>
     (sublist k (toLowerCase (label n)) \<or>
      (case description n of None \<Rightarrow> False | Some d \<Rightarrow> sublist k (toLowerCase d)))"
  by (auto simp: matches_def includes_str_def split: option.splits)

lemma searchEntity_nodes:
  assumes "nodes s = Some ns" and "distinct (map node_id ns)"
    and "toLowerCase (trim q) = k" and "k \<noteq> []"
  shows "nodes (state_of (searchEntity toLowerCase q s)) =
    Some (map (\<lambda>n. if matches toLowerCase k n
                         then n\<lparr>color := Hex ''#FF0000'', borderWidth := Some 4\<rparr>
                         else n\<lparr>color := colorFor (node_type n), borderWidth := Some 2\<rparr>) ns)"
  by (simp add: searchEntity_nonempty[where toLowerCase = toLowerCase and q = q, OF assms] Let_def state_of_def
        showEntityDetails_globals[unfolded state_of_def])

lemma searchEntity_empty_borderWidth:
  assumes "nodes s = Some ns" and "distinct (map node_id ns)"
    and "toLowerCase (trim q) = []"
  shows "\<exists>ns'. nodes (state_of (searchEntity toLowerCase q s)) = Some ns' \<and>
     map color ns' = map (\<lambda>n. colorFor (node_type n)) ns \<and>
     map borderWidth ns' = map borderWidth ns"
  by (simp add: searchEntity_empty[where toLowerCase = toLowerCase and q = q, OF assms] state_of_def comp_def)

lemma searchEntity_graphData: "graphData (state_of (searchEntity toLowerCase q s)) = graphData s"
  by (simp add: searchEntity_def Let_def state_of_def
      showEntityDetails_globals[unfolded state_of_def] split: option.splits)

subsection \<open>A search with one match, when the edges at the node resolve\<close>

text \<open>
  On a store with distinct ids and for a query that is not empty after trimming: with the
  network created and exactly one node matching, the search calls \<open>network.focus\<close> on
  that node, once, and makes no other call; and when every edge at that node has its two
  endpoints in the store, no exception leaves the search and the detail panel shows that
  node. With no match or several, the search makes no call and leaves the panel as it was.
\<close>

lemma searchEntity_single_match:
  assumes "nodes s = Some ns" and "distinct (map node_id ns)"
    and "toLowerCase (trim q) = k" and "k \<noteq> []"
  shows "(network s \<noteq> None \<and> filter (matches toLowerCase k) ns = [n] \<longrightarrow>
            effects_of (searchEntity toLowerCase q s) = [Focus (node_id n)] \<and>
            (edges s = Some es \<and>
             (\<forall>e\<in>set es. edge_from e = node_id n \<or> edge_to e = node_id n \<longrightarrow>
                  edge_from e \<in> node_id ` set ns \<and> edge_to e \<in> node_id ` set ns) \<longrightarrow>
             thrown (searchEntity toLowerCase q s) = None \<and>
             (\<exists>p. entityDetails (state_of (searchEntity toLowerCase q s)) = Some p \<and>
                  p_label p = label n \<and> p_type p = node_type n))) \<and>
         (network s = None \<or> length (filter (matches toLowerCase k) ns) \<noteq> 1 \<longrightarrow>
            effects_of (searchEntity toLowerCase q s) = [] \<and>
            thrown (searchEntity toLowerCase q s) = None \<and>
            entityDetails (state_of (searchEntity toLowerCase q s)) = entityDetails s)"
proof -
  let ?hl = "\<lambda>n. if matches toLowerCase k n
                         then n\<lparr>color := Hex ''#FF0000'', borderWidth := Some 4\<rparr>
                         else n\<lparr>color := colorFor (node_type n), borderWidth := Some 2\<rparr>"
  let ?s1 = "s\<lparr>nodes := Some (map ?hl ns)\<rparr>"
  note se = searchEntity_nonempty[where toLowerCase = toLowerCase and q = q, OF assms]
  have one: "effects_of (searchEntity toLowerCase q s) = [Focus (node_id n)] \<and>
     thrown (searchEntity toLowerCase q s) = thrown (showEntityDetails (node_id n) ?s1) \<and>
     state_of (searchEntity toLowerCase q s) = state_of (showEntityDetails (node_id n) ?s1)"
    if "network s \<noteq> None" "filter (matches toLowerCase k) ns = [n]"
    using that
    by (simp add: se Let_def showEntityDetails_effects)
       (simp add: effects_of_def thrown_def state_of_def)
  have opens: "thrown (showEntityDetails (node_id n) ?s1) = None \<and>
      (\<exists>p. entityDetails (state_of (showEntityDetails (node_id n) ?s1)) = Some p \<and>
           p_label p = label n \<and> p_type p = node_type n)"
    if m: "filter (matches toLowerCase k) ns = [n]" and es: "edges s = Some es"
      and ok: "\<forall>e\<in>set es. edge_from e = node_id n \<or> edge_to e = node_id n \<longrightarrow>
                  edge_from e \<in> node_id ` set ns \<and> edge_to e \<in> node_id ` set ns"
  proof -
    have "n \<in> set (filter (matches toLowerCase k) ns)" using m by simp
    then have n: "n \<in> set ns" by simp
    have g: "get (node_id n) (map ?hl ns) = Some (?hl n)"
      using get_distinct[OF assms(2) n] by (subst get_map) auto
    have "map node_id (map ?hl xs) = map node_id xs" for xs :: "'a node list"
      by (induction xs) auto
    then have "set (map node_id (map ?hl ns)) = set (map node_id ns)"
      by (simp only:)
    then have ids: "node_id ` set (map ?hl ns) = node_id ` set ns"
      by (simp only: set_map)
    have "thrown (showEntityDetails (node_id n) ?s1) = None \<and>
      (\<exists>p. entityDetails (state_of (showEntityDetails (node_id n) ?s1)) = Some p \<and>
           p_label p = label (?hl n) \<and> p_type p = node_type (?hl n))"
      by (rule showEntityDetails_opens[where ns = "map ?hl ns" and es = es])
         (use g es ok in \<open>simp_all only: ids\<close>, simp_all)
    moreover have "label (?hl n) = label n" and "node_type (?hl n) = node_type n"
      by auto
    ultimately show ?thesis by (simp only:)
  qed
  have other: "searchEntity toLowerCase q s = (?s1, [], None)"
    if "network s = None \<or> length (filter (matches toLowerCase k) ns) \<noteq> 1"
    using that by (auto simp add: se Let_def)
  show ?thesis
    using one opens other by (auto simp: effects_of_def thrown_def state_of_def)
qed

subsection \<open>Every store the page can reach has distinct ids\<close>

lemma loadGraph_resume_ids_distinct:
  assumes "\<forall>ns. nodes s = Some ns \<longrightarrow> distinct (map node_id ns)"
  shows "\<forall>ns. nodes (state_of (loadGraph_resume resp s)) = Some ns \<longrightarrow> distinct (map node_id ns)"
  using assms
  by (auto simp: loadGraph_resume_def new_DataSet_def catch_load_def updateStats_def
        initNetwork_def Let_def state_of_def
      split: response.splits option.splits if_splits prod.splits)

lemma searchEntity_ids_distinct:
  assumes "\<forall>ns. nodes s = Some ns \<longrightarrow> distinct (map node_id ns)"
  shows "\<forall>ns. nodes (state_of (searchEntity toLowerCase q s)) = Some ns \<longrightarrow> distinct (map node_id ns)"
proof (cases "nodes s")
  case None
  then show ?thesis by (simp add: searchEntity_def Let_def state_of_def)
next
  case (Some ns)
  then have d: "distinct (map node_id ns)" using assms by simp
  have m: "map node_id (map f ns) = map node_id ns" if "\<And>n. node_id (f n) = node_id n" for f :: "'a node \<Rightarrow> 'a node"
    using that by simp
  show ?thesis
  proof (cases "toLowerCase (trim q) = []")
    case True
    show ?thesis
      using d by (simp add: searchEntity_empty[where toLowerCase = toLowerCase and q = q, OF Some d True] state_of_def comp_def)
  next
    case False
    have "distinct (map node_id (map (\<lambda>n. if matches toLowerCase (toLowerCase (trim q)) n
                         then n\<lparr>color := Hex ''#FF0000'', borderWidth := Some 4\<rparr>
                         else n\<lparr>color := colorFor (node_type n), borderWidth := Some 2\<rparr>) ns))"
      using d by (subst m) auto
    then show ?thesis
      by (simp only: searchEntity_nodes[where toLowerCase = toLowerCase and q = q, OF Some d refl False]) simp
  qed
qed

lemma step_ids_distinct:
  assumes "\<forall>ns. nodes s = Some ns \<longrightarrow> distinct (map node_id ns)"
  shows "\<forall>ns. nodes (fst (fst (step toLowerCase e (s, k)))) = Some ns \<longrightarrow> distinct (map node_id ns)"
proof (cases e)
  case Reload
  then show ?thesis using assms
    by (simp add: loadGraph_request_def showLoading_def state_of_def)
next
  case (Arrive resp)
  then show ?thesis
    using assms loadGraph_resume_ids_distinct[OF assms, of resp] by (simp add: Let_def)
next
  case (Search v)
  then show ?thesis
    using searchEntity_ids_distinct[OF assms, of toLowerCase v] by (simp add: Let_def)
next
  case (Click ps)
  then show ?thesis
    using assms
    by (simp add: on_click_def Let_def state_of_def
          showEntityDetails_globals[unfolded state_of_def] split: option.splits)
next
  case (DoubleClick ps)
  then show ?thesis
    using assms by (simp add: on_doubleClick_def Let_def state_of_def split: option.splits)
next
  case FitView
  then show ?thesis using assms by (simp add: fitGraph_def Let_def state_of_def)
next
  case Export
  then show ?thesis using assms
    by (simp add: exportGraph_def Let_def state_of_def split: option.splits)
qed

lemma run_ids_distinct:
  "\<forall>ns. nodes (fst c) = Some ns \<longrightarrow> distinct (map node_id ns) \<Longrightarrow>
   \<forall>ns. nodes (fst (fst (run toLowerCase evs c))) = Some ns \<longrightarrow> distinct (map node_id ns)"
proof (induction evs arbitrary: c)
  case Nil
  then show ?case by simp
next
  case (Cons e evs)
  obtain s k where c: "c = (s, k)" by (cases c)
  have "\<forall>ns. nodes (fst (fst (step toLowerCase e (s, k)))) = Some ns \<longrightarrow> distinct (map node_id ns)"
    using step_ids_distinct Cons.prems c by fastforce
  from Cons.IH[of "fst (step toLowerCase e (s, k))", OF this] show ?case
    by (simp add: c split: prod.splits)
qed

lemma reachable_ids_distinct:
  "nodes (fst (fst (run toLowerCase evs (init, 0)))) = Some ns \<Longrightarrow> distinct (map node_id ns)"
  using run_ids_distinct[of "(init, 0)" toLowerCase evs] by (simp add: init_def)

subsection \<open>Once the stores are set, the network is\<close>

lemma new_DataSet_edges:
  "new_DataSet edge_id (map (\<lambda>(index, edge). toEdge edge index) (enumerate 0 res)) =
     Some (map (\<lambda>(index, edge). toEdge edge index) (enumerate 0 res))"
  by (simp only: new_DataSet_def edge_ids) simp

lemma loadGraph_resume_network:
  assumes "nodes s \<noteq> None \<longrightarrow> network s \<noteq> None"
  shows "nodes (state_of (loadGraph_resume resp s)) \<noteq> None \<longrightarrow>
         network (state_of (loadGraph_resume resp s)) \<noteq> None"
  using assms
  by (auto simp: loadGraph_resume_def new_DataSet_edges catch_load_def updateStats_def
        initNetwork_def Let_def state_of_def
      simp del: map_map
      split: response.splits option.splits if_splits prod.splits)

lemma searchEntity_network:
  "network (state_of (searchEntity toLowerCase q s)) = network s \<and>
   (nodes (state_of (searchEntity toLowerCase q s)) \<noteq> None \<longleftrightarrow> nodes s \<noteq> None)"
  by (simp add: searchEntity_def Let_def state_of_def
        showEntityDetails_globals[unfolded state_of_def] split: option.splits)

lemma step_network:
  assumes "nodes s \<noteq> None \<longrightarrow> network s \<noteq> None"
  shows "nodes (fst (fst (step toLowerCase e (s, k)))) \<noteq> None \<longrightarrow>
         network (fst (fst (step toLowerCase e (s, k)))) \<noteq> None"
proof (cases e)
  case Reload
  then show ?thesis using assms
    by (simp add: loadGraph_request_def showLoading_def state_of_def)
next
  case (Arrive resp)
  then show ?thesis
    using assms loadGraph_resume_network[OF assms, of resp] by (simp add: Let_def)
next
  case (Search v)
  then show ?thesis
    using assms searchEntity_network[of toLowerCase v s] by (simp add: Let_def)
next
  case (Click ps)
  then show ?thesis
    using assms
    by (auto simp add: on_click_def Let_def state_of_def
          showEntityDetails_globals[unfolded state_of_def] split: option.splits)
next
  case (DoubleClick ps)
  then show ?thesis
    using assms by (auto simp add: on_doubleClick_def Let_def state_of_def split: option.splits)
next
  case FitView
  then show ?thesis using assms by (auto simp add: fitGraph_def Let_def state_of_def)
next
  case Export
  then show ?thesis using assms
    by (auto simp add: exportGraph_def Let_def state_of_def split: option.splits)
qed

lemma run_network:
  "nodes (fst c) \<noteq> None \<longrightarrow> network (fst c) \<noteq> None \<Longrightarrow>
   nodes (fst (fst (run toLowerCase evs c))) \<noteq> None \<longrightarrow>
   network (fst (fst (run toLowerCase evs c))) \<noteq> None"
proof (induction evs arbitrary: c)
  case Nil
  then show ?case by simp
next
  case (Cons e evs)
  obtain s k where c: "c = (s, k)" by (cases c)
  obtain c1 fx1 where st: "step toLowerCase e (s, k) = (c1, fx1)"
    by (cases "step toLowerCase e (s, k)")
  obtain c2 fx2 where r: "run toLowerCase evs c1 = (c2, fx2)"
    by (cases "run toLowerCase evs c1")
  have "nodes (fst c1) \<noteq> None \<longrightarrow> network (fst c1) \<noteq> None"
    using step_network[of s toLowerCase e k] Cons.prems c st by simp
  from Cons.IH[OF this] r show ?case
    by (simp add: c st)
qed

text \<open>
  On every page reached from the fresh one, whatever the events and responses, the test
  \<open>&& network\<close> of l. 289 is true as soon as the node store is set.
\<close>

lemma reachable_network:
  "nodes (fst (fst (run toLowerCase evs (init, 0)))) \<noteq> None \<Longrightarrow>
   network (fst (fst (run toLowerCase evs (init, 0)))) \<noteq> None"
  using run_network[of "(init, 0)" toLowerCase evs] by (simp add: init_def)

subsection \<open>Reload requests in a row\<close>

lemma run_reloads:
  "run toLowerCase (replicate n Reload) (s, pending) =
     ((if n = 0 then s else showLoading s, pending + n), replicate n Fetch)"
proof (induction n arbitrary: s pending)
  case 0
  then show ?case by simp
next
  case (Suc n)
  have idem: "showLoading (showLoading s) = showLoading s"
    by (simp add: showLoading_def)
  show ?case
    by (simp add: Suc.IH loadGraph_request_def state_of_def effects_of_def Let_def idem)
qed

subsection \<open>Edges whose endpoints are not in the snapshot\<close>

text \<open>
  C1, as the specification has it, at its own scenario: two nodes and one edge from the
  unknown node 99. The claim expects 2 nodes and 0 edges after the load. The load keeps
  the edge: the edge store has one item, with \<open>from = 99\<close>.
\<close>

theorem C1_dangling_edge_is_loaded:
  "map_option length (nodes (state_of (loadGraph (Payload dangling) init))) = Some 2 \<and>
   map_option length (edges (state_of (loadGraph (Payload dangling) init))) \<noteq> Some 0 \<and>
   edges (state_of (loadGraph (Payload dangling) init)) =
     Some [\<lparr>edge_id = 0, edge_from = 99, edge_to = 2, edge_label = employs,
            edge_title = employs\<rparr>]"
  by code_simp

text \<open>
  C1, amended: a successful load keeps every edge of the export, whether or not its source
  and target are among the nodes. The edge store has one item per exported edge, in the
  order of the export, the item at position \<open>i\<close> having id \<open>i\<close> and the source and target
  of the exported edge. Nothing is counted: the state has no counter of dropped edges.
\<close>

theorem C1_load_keeps_every_edge:
  assumes "res_success r" and "res_nodes r = Some rns" and "res_edges r = Some res"
    and "distinct (map node_id rns)"
  shows "\<exists>ns es. nodes (state_of (loadGraph (Payload r) s)) = Some ns \<and>
                 edges (state_of (loadGraph (Payload r) s)) = Some es \<and>
                 length ns = length rns \<and> length es = length res \<and>
                 (\<forall>i<length res. edge_id (es ! i) = i \<and>
                                     edge_from (es ! i) = source (res ! i) \<and>
                                     edge_to (es ! i) = target (res ! i))"
  by (simp add: loadGraph_success[OF assms] state_of_def nth_enumerate_eq toEdge_def)

text \<open>C1 on the scenario itself: both nodes and the edge from 99 are in the stores.\<close>

theorem C1_load_keeps_every_edge_witness:
  "res_success dangling \<and> res_nodes dangling = Some [acme, alice] \<and>
   res_edges dangling =
     Some [\<lparr>source = 99, target = 2, relation = employs, edge_description = None\<rparr>] \<and>
   distinct (map node_id [acme, alice]) \<and>
   (\<exists>ns es. nodes (state_of (loadGraph (Payload dangling) init)) = Some ns \<and>
            edges (state_of (loadGraph (Payload dangling) init)) = Some es \<and>
            length ns = 2 \<and> length es = 1 \<and>
            edge_id (es ! 0) = 0 \<and> edge_from (es ! 0) = 99 \<and> edge_to (es ! 0) = 2)"
proof -
  have h1: "res_success dangling" by (simp add: dangling_def)
  have h2: "res_nodes dangling = Some [acme, alice]" by (simp add: dangling_def)
  have h3: "res_edges dangling =
     Some [\<lparr>source = 99, target = 2, relation = employs, edge_description = None\<rparr>]"
    by (simp add: dangling_def)
  have h4: "distinct (map node_id [acme, alice])" by (simp add: acme_def alice_def)
  show ?thesis
    using h1 h2 h3 h4 C1_load_keeps_every_edge[OF h1 h2 h3 h4, of init] by auto
qed

subsection \<open>Focus and details after a search\<close>

text \<open>
  C2 at the snapshot of two nodes whose one edge comes from the unknown node 99 and ends
  at Alice, loaded on the fresh page and searched for \<open>alice\<close>. Node 2 is the only match
  and the network is there, so the camera is focused on node 2, once. Then
  \<open>showEntityDetails\<close> looks up the source of the incoming edge, finds \<open>null\<close>, and
  reading its label (l. 233) throws: the detail panel is not written.
\<close>

theorem C2_details_throw_after_focus:
  "network (state_of (loadGraph (Payload dangling) init)) = Some Network \<and>
   map_option (filter (matches toLowerCase_ascii ''alice''))
     (nodes (state_of (loadGraph (Payload dangling) init))) = Some [toNode alice] \<and>
   effects_of (searchEntity toLowerCase_ascii ''alice''
     (state_of (loadGraph (Payload dangling) init))) = [Focus 2] \<and>
   thrown (searchEntity toLowerCase_ascii ''alice''
     (state_of (loadGraph (Payload dangling) init))) = Some TypeError \<and>
   entityDetails (state_of (searchEntity toLowerCase_ascii ''alice''
     (state_of (loadGraph (Payload dangling) init)))) = None"
  by code_simp

text \<open>
  The same search on the snapshot whose edge goes from Acme to Alice: focus on node 2, and
  the panel of Alice with its one incoming relation.
\<close>

lemma search_alice_on_loaded:
  "effects_of (searchEntity toLowerCase_ascii ''alice'' loaded) = [Focus 2] \<and>
   thrown (searchEntity toLowerCase_ascii ''alice'' loaded) = None \<and>
   entityDetails (state_of (searchEntity toLowerCase_ascii ''alice'' loaded)) =
     Some \<lparr>p_label = ''Alice'', p_type = type_person, p_description = None,
           p_source_document = None, p_outgoing = [],
           p_incoming = [(''Acme'', employs, ''Alice'')]\<rparr>"
  by code_simp

subsection \<open>The empty query\<close>

text \<open>
  C3 at the two-node snapshot: \<open>alice\<close> is searched, then the field is cleared (a query
  of one space). The first search gives node 2 the border width 4. The empty search gives
  both nodes the colour of their type again and leaves the border width 4 on node 2; a
  search that matches nothing (\<open>bob\<close>) would have set it back to 2.
\<close>

theorem C3_empty_search_keeps_border_width:
  "map_option (map borderWidth) (nodes (state_of (searchEntity toLowerCase_ascii ''alice'' loaded))) =
     Some [Some 2, Some 4] \<and>
   map_option (map color)
     (nodes (state_of (searchEntity toLowerCase_ascii '' '' (state_of (searchEntity toLowerCase_ascii ''alice'' loaded))))) =
     Some [Hex ''#FF6B6B'', Hex ''#4ECDC4''] \<and>
   map_option (map borderWidth)
     (nodes (state_of (searchEntity toLowerCase_ascii '' '' (state_of (searchEntity toLowerCase_ascii ''alice'' loaded))))) =
     Some [Some 2, Some 4] \<and>
   map_option (map borderWidth)
     (nodes (state_of (searchEntity toLowerCase_ascii ''bob'' (state_of (searchEntity toLowerCase_ascii ''alice'' loaded))))) =
     Some [Some 2, Some 2]"
  by code_simp

subsection \<open>Which nodes a search highlights\<close>

text \<open>
  C4, as the specification has it, at the loaded two-node snapshot and the query \<open>alice\<close>
  followed by a space. The lower-cased query, with its space, is not a substring of the
  lower-cased label of node 2, which has no description; the search highlights node 2
  all the same, because the query is trimmed first (l. 251).
\<close>

theorem C4_query_is_trimmed_before_matching:
  "\<not> sublist (toLowerCase_ascii ''alice '') (toLowerCase_ascii (label (toNode alice))) \<and>
   description (toNode alice) = None \<and>
   map_option (map node_id) (nodes loaded) = Some [1, 2] \<and>
   map_option (map color) (nodes (state_of (searchEntity toLowerCase_ascii ''alice '' loaded))) =
     Some [Hex ''#FF6B6B'', Hex ''#FF0000''] \<and>
   map_option (map borderWidth)
     (nodes (state_of (searchEntity toLowerCase_ascii ''alice '' loaded))) =
     Some [Some 2, Some 4]"
  by code_simp

text \<open>
  C4, amended: the query is trimmed, then lower-cased; let \<open>k\<close> be the result, not empty.
  On a store with distinct ids, after the search the store holds the same nodes in the same
  order, a node being red (\<open>#FF0000\<close>) with border width 4 if \<open>k\<close> is a substring of its
  lower-cased label, or of its lower-cased description when it has one, and having
  \<open>colorFor\<close> of its type with border width 2 otherwise. This holds whatever function
  lower-cases, as long as it maps the empty string to itself, which the built-in does.
\<close>

theorem C4_search_highlights_matches:
  assumes "nodes s = Some ns" and "distinct (map node_id ns)"
    and "toLowerCase [] = []"
    and "toLowerCase (trim q) = k" and "k \<noteq> []"
  shows "nodes (state_of (searchEntity toLowerCase q s)) =
    Some (map (\<lambda>n. if sublist k (toLowerCase (label n)) \<or>
                       (case description n of
                          None \<Rightarrow> False
                        | Some d \<Rightarrow> sublist k (toLowerCase d))
                    then n\<lparr>color := Hex ''#FF0000'', borderWidth := Some 4\<rparr>
                    else n\<lparr>color := colorFor (node_type n), borderWidth := Some 2\<rparr>) ns)"
  using assms(3,5)
  by (simp add: searchEntity_nodes[where toLowerCase = toLowerCase and q = q,
        OF assms(1,2,4,5)] matches_iff)

text \<open>
  C4 on the loaded two-node snapshot, with the query \<open>ALICE\<close> in capitals between an
  ideographic space (U+3000) and a space: Alice is highlighted, Acme is reset.
\<close>

theorem C4_search_highlights_matches_witness:
  "nodes loaded = Some [toNode acme, toNode alice] \<and>
   distinct (map node_id [toNode acme, toNode alice]) \<and>
   toLowerCase_ascii [] = [] \<and>
   toLowerCase_ascii (trim (CHR 0xE3 # CHR 0x80 # CHR 0x80 # ''ALICE '')) = ''alice'' \<and>
   ''alice'' \<noteq> [] \<and>
   nodes (state_of (searchEntity toLowerCase_ascii
            (CHR 0xE3 # CHR 0x80 # CHR 0x80 # ''ALICE '') loaded)) =
     Some [(toNode acme)\<lparr>color := Hex ''#FF6B6B'', borderWidth := Some 2\<rparr>,
           (toNode alice)\<lparr>color := Hex ''#FF0000'', borderWidth := Some 4\<rparr>]"
proof -
  let ?q = "CHR 0xE3 # CHR 0x80 # CHR 0x80 # ''ALICE ''"
  have h1: "nodes loaded = Some [toNode acme, toNode alice]" by code_simp
  have h2: "distinct (map node_id [toNode acme, toNode alice])" by code_simp
  have h3: "toLowerCase_ascii [] = []" by (simp add: toLowerCase_ascii_def)
  have h4: "toLowerCase_ascii (trim ?q) = ''alice''" by code_simp
  have h5: "''alice'' \<noteq> []" by simp
  have e: "map (\<lambda>n. if sublist ''alice'' (toLowerCase_ascii (label n)) \<or>
                       (case description n of
                          None \<Rightarrow> False
                        | Some d \<Rightarrow> sublist ''alice'' (toLowerCase_ascii d))
                    then n\<lparr>color := Hex ''#FF0000'', borderWidth := Some 4\<rparr>
                    else n\<lparr>color := colorFor (node_type n), borderWidth := Some 2\<rparr>)
             [toNode acme, toNode alice] =
          [(toNode acme)\<lparr>color := Hex ''#FF6B6B'', borderWidth := Some 2\<rparr>,
           (toNode alice)\<lparr>color := Hex ''#FF0000'', borderWidth := Some 4\<rparr>]"
    by code_simp
  show ?thesis
    using h1 h2 h3 h4 h5
      C4_search_highlights_matches[where toLowerCase = toLowerCase_ascii and q = ?q,
        OF h1 h2 h3 h4 h5]
    by (simp only: e) simp
qed

subsection \<open>Outgoing and incoming edges\<close>

text \<open>
  C5, as the specification has it, on a node with an edge to itself: the edge is in the
  outgoing list and in the incoming list, so the two lists overlap.
\<close>

theorem C5_self_loop_is_outgoing_and_incoming:
  "edges (state_of (loadGraph (Payload self_loop) init)) =
     Some [\<lparr>edge_id = 0, edge_from = 1, edge_to = 1, edge_label = employs,
            edge_title = employs\<rparr>] \<and>
   outgoing 1 [\<lparr>edge_id = 0, edge_from = 1::int, edge_to = 1, edge_label = employs,
                edge_title = employs\<rparr>] =
     [\<lparr>edge_id = 0, edge_from = 1, edge_to = 1, edge_label = employs, edge_title = employs\<rparr>] \<and>
   incoming 1 [\<lparr>edge_id = 0, edge_from = 1::int, edge_to = 1, edge_label = employs,
                edge_title = employs\<rparr>] =
     [\<lparr>edge_id = 0, edge_from = 1, edge_to = 1, edge_label = employs, edge_title = employs\<rparr>]"
  by code_simp

text \<open>
  C5, amended: in the edge store left by a successful load, for every id, the outgoing
  list is the edges with that source and the incoming list the edges with that target,
  both in ascending order of edge id; together they are exactly the edges that touch the
  id, and an edge is in both lists exactly when it goes from the id to itself.
\<close>

theorem C5_neighbors_of_loaded_graph:
  assumes "res_success r" and "res_nodes r = Some rns" and "res_edges r = Some res"
    and "distinct (map node_id rns)"
    and "edges (state_of (loadGraph (Payload r) s)) = Some es"
  shows "outgoing i es = filter (\<lambda>e. edge_from e = i) es \<and>
         incoming i es = filter (\<lambda>e. edge_to e = i) es \<and>
         set (outgoing i es) \<union> set (incoming i es) =
           {e \<in> set es. edge_from e = i \<or> edge_to e = i} \<and>
         set (outgoing i es) \<inter> set (incoming i es) =
           {e \<in> set es. edge_from e = i \<and> edge_to e = i} \<and>
         sorted_wrt (<) (map edge_id (outgoing i es)) \<and>
         sorted_wrt (<) (map edge_id (incoming i es))"
proof -
  have es: "es = map (\<lambda>(index, edge). toEdge edge index) (enumerate 0 res)"
    using assms(5) by (simp add: loadGraph_success[OF assms(1-4)] state_of_def)
  have "map edge_id es = [0..<length res]"
    by (simp only: es edge_ids) simp
  then have "sorted_wrt (<) (map edge_id es)"
    by (simp only: sorted_wrt_upt) 
  then have s: "sorted_wrt (\<lambda>a b. edge_id a < edge_id b) es"
    by (simp add: sorted_wrt_map)
  have out: "outgoing i es = filter (\<lambda>e. edge_from e = i) es"
    by (auto simp: outgoing_def connectedEdges_def intro: filter_cong)
  have inc: "incoming i es = filter (\<lambda>e. edge_to e = i) es"
    by (auto simp: incoming_def connectedEdges_def intro: filter_cong)
  have "sorted_wrt (<) (map edge_id (filter P es))" for P
    using s by (simp add: sorted_wrt_map sorted_wrt_filter)
  then show ?thesis
    by (simp only: out inc) auto
qed

text \<open>C5 on the two-node snapshot: node 1 has the outgoing edge 0 and no incoming edge.\<close>

theorem C5_neighbors_of_loaded_graph_witness:
  "res_success acme_alice \<and> res_nodes acme_alice = Some [acme, alice] \<and>
   res_edges acme_alice =
     Some [\<lparr>source = 1, target = 2, relation = employs, edge_description = None\<rparr>] \<and>
   distinct (map node_id [acme, alice]) \<and>
   edges (state_of (loadGraph (Payload acme_alice) init)) =
     Some [\<lparr>edge_id = 0, edge_from = 1, edge_to = 2, edge_label = employs,
            edge_title = employs\<rparr>] \<and>
   outgoing 1 [\<lparr>edge_id = 0, edge_from = 1::int, edge_to = 2, edge_label = employs,
                edge_title = employs\<rparr>] =
     [\<lparr>edge_id = 0, edge_from = 1, edge_to = 2, edge_label = employs, edge_title = employs\<rparr>] \<and>
   incoming 1 [\<lparr>edge_id = 0, edge_from = 1::int, edge_to = 2, edge_label = employs,
                edge_title = employs\<rparr>] = []"
proof -
  let ?e = "\<lparr>edge_id = 0, edge_from = 1, edge_to = 2, edge_label = employs,
            edge_title = employs\<rparr> :: int edge"
  have h1: "res_success acme_alice" by (simp add: acme_alice_def)
  have h2: "res_nodes acme_alice = Some [acme, alice]" by (simp add: acme_alice_def)
  have h3: "res_edges acme_alice =
     Some [\<lparr>source = 1, target = 2, relation = employs, edge_description = None\<rparr>]"
    by (simp add: acme_alice_def)
  have h4: "distinct (map node_id [acme, alice])" by (simp add: acme_def alice_def)
  have h5: "edges (state_of (loadGraph (Payload acme_alice) init)) = Some [?e]"
    by code_simp
  show ?thesis
    using h1 h2 h3 h4 h5 C5_neighbors_of_loaded_graph[OF h1 h2 h3 h4 h5, of 1] by simp
qed

subsection \<open>A reload that fails\<close>

text \<open>
  C6 at a reload of the loaded two-node page whose response says \<open>success: true\<close> and has
  no \<open>nodes\<close>: the error is shown, the node store, the edge store and the network stay,
  and the cached export is replaced by the malformed body, which is what an export
  downloads from then on.
\<close>

theorem C6_failed_reload_replaces_cached_export:
  "graphData loaded = Some acme_alice \<and>
   graphData (state_of (loadGraph (Payload no_nodes) loaded)) = Some no_nodes \<and>
   nodes (state_of (loadGraph (Payload no_nodes) loaded)) = nodes loaded \<and>
   edges (state_of (loadGraph (Payload no_nodes) loaded)) = edges loaded \<and>
   network (state_of (loadGraph (Payload no_nodes) loaded)) = network loaded \<and>
   effects_of (loadGraph (Payload no_nodes) loaded) =
     [Fetch, ConsoleError TypeError, AlertLoadError TypeError] \<and>
   effects_of (exportGraph (state_of (loadGraph (Payload no_nodes) loaded))) =
     [Download no_nodes]"
  by code_simp

subsection \<open>Load, then export\<close>

text \<open>
  C7: for every export that says success, has both arrays and no node id twice, loaded on
  any page. The export that follows downloads the body that was consumed, unchanged, and
  leaves the state alone, also when a search has happened in between. The stores hold the
  nodes and edges of that body, in its order, each edge with its position as id.
\<close>

theorem C7_load_then_export_round_trip:
  assumes "res_success r" and "res_nodes r = Some rns" and "res_edges r = Some res"
    and "distinct (map node_id rns)"
  shows "exportGraph (state_of (loadGraph (Payload r) s)) =
           (state_of (loadGraph (Payload r) s), [Download r], None) \<and>
         effects_of (exportGraph (state_of (searchEntity toLowerCase q (state_of (loadGraph (Payload r) s)))))
           = [Download r] \<and>
         (\<exists>ns es. nodes (state_of (loadGraph (Payload r) s)) = Some ns \<and>
                  edges (state_of (loadGraph (Payload r) s)) = Some es \<and>
                  map node_id ns = map node_id rns \<and> map label ns = map label rns \<and>
                  map node_type ns = map node_type rns \<and>
                  map description ns = map description rns \<and>
                  map source_document ns = map source_document rns \<and>
                  map edge_id es = [0..<length res] \<and>
                  map edge_from es = map source res \<and> map edge_to es = map target res \<and>
                  map edge_label es = map relation res)"
proof -
  let ?s = "state_of (loadGraph (Payload r) s)"
  have g: "graphData ?s = Some r"
    by (simp add: loadGraph_success[OF assms] state_of_def)
  have a: "exportGraph ?s = (?s, [Download r], None)"
    by (simp add: exportGraph_def g)
  have b: "effects_of (exportGraph (state_of (searchEntity toLowerCase q ?s))) = [Download r]"
    by (simp add: exportGraph_def searchEntity_graphData g effects_of_def)
  have f: "map edge_from (map (\<lambda>(index, edge). toEdge edge index) (enumerate k res)) = map source res \<and>
           map edge_to (map (\<lambda>(index, edge). toEdge edge index) (enumerate k res)) = map target res \<and>
           map edge_label (map (\<lambda>(index, edge). toEdge edge index) (enumerate k res)) = map relation res" for k
    by (induction res arbitrary: k) (auto simp: toEdge_def)
  have n: "map node_id (map toNode rns) = map node_id rns \<and> map label (map toNode rns) = map label rns \<and>
           map node_type (map toNode rns) = map node_type rns \<and>
           map description (map toNode rns) = map description rns \<and>
           map source_document (map toNode rns) = map source_document rns"
    by (simp add: toNode_def)
  have c: "nodes ?s = Some (map toNode rns) \<and>
           edges ?s = Some (map (\<lambda>(index, edge). toEdge edge index) (enumerate 0 res))"
    by (simp add: loadGraph_success[OF assms] state_of_def)
  have ids: "map edge_id (map (\<lambda>(index, edge). toEdge edge index) (enumerate 0 res)) = [0..<length res]"
    by (simp only: edge_ids) simp
  show ?thesis
    using a b c n f[of 0] ids by (intro conjI exI[of _ "map toNode rns"]
        exI[of _ "map (\<lambda>(index, edge). toEdge edge index) (enumerate 0 res)"]) (simp_all only:)
qed

text \<open>C7 on the two-node snapshot, with the search \<open>alice\<close> in between.\<close>

theorem C7_load_then_export_round_trip_witness:
  "res_success acme_alice \<and> res_nodes acme_alice = Some [acme, alice] \<and>
   res_edges acme_alice =
     Some [\<lparr>source = 1, target = 2, relation = employs, edge_description = None\<rparr>] \<and>
   distinct (map node_id [acme, alice]) \<and>
   exportGraph (state_of (loadGraph (Payload acme_alice) init)) =
     (state_of (loadGraph (Payload acme_alice) init), [Download acme_alice], None) \<and>
   effects_of (exportGraph (state_of (searchEntity toLowerCase_ascii ''alice''
     (state_of (loadGraph (Payload acme_alice) init))))) = [Download acme_alice] \<and>
   (\<exists>ns es. nodes (state_of (loadGraph (Payload acme_alice) init)) = Some ns \<and>
            edges (state_of (loadGraph (Payload acme_alice) init)) = Some es \<and>
            map node_id ns = [1, 2] \<and> map label ns = [''Acme'', ''Alice''] \<and>
            map edge_id es = [0] \<and> map edge_from es = [1] \<and> map edge_to es = [2])"
proof -
  have h1: "res_success acme_alice" by (simp add: acme_alice_def)
  have h2: "res_nodes acme_alice = Some [acme, alice]" by (simp add: acme_alice_def)
  have h3: "res_edges acme_alice =
     Some [\<lparr>source = 1, target = 2, relation = employs, edge_description = None\<rparr>]"
    by (simp add: acme_alice_def)
  have h4: "distinct (map node_id [acme, alice])" by (simp add: acme_def alice_def)
  show ?thesis
    using h1 h2 h3 h4 C7_load_then_export_round_trip[OF h1 h2 h3 h4,
        where s = init and q = "''alice''" and toLowerCase = toLowerCase_ascii]
    by (auto simp: acme_def alice_def)
qed

subsection \<open>The statistics\<close>

text \<open>
  C8, as the specification has it, at the two-node snapshot, whose body carries no
  counts: two nodes and one edge are loaded, and both displayed counts are 0.
\<close>

theorem C8_counts_are_not_recomputed:
  "map_option length (nodes loaded) = Some 2 \<and> nodeCount loaded = Some 0 \<and>
   map_option length (edges loaded) = Some 1 \<and> edgeCount loaded = Some 0"
  by code_simp

text \<open>
  C8, amended: after every successful load the displayed node count is the
  \<open>nodes_count\<close> of the body and the displayed edge count its \<open>edges_count\<close>, each 0
  when the body has none; the displayed type count is the number of distinct types among
  the nodes of the body.
\<close>

theorem C8_statistics_after_load:
  assumes "res_success r" and "res_nodes r = Some rns" and "res_edges r = Some res"
    and "distinct (map node_id rns)"
  shows "nodeCount (state_of (loadGraph (Payload r) s)) =
           Some (case res_nodes_count r of None \<Rightarrow> 0 | Some c \<Rightarrow> c) \<and>
         edgeCount (state_of (loadGraph (Payload r) s)) =
           Some (case res_edges_count r of None \<Rightarrow> 0 | Some c \<Rightarrow> c) \<and>
         typeCount (state_of (loadGraph (Payload r) s)) = Some (card (node_type ` set rns))"
  by (simp add: loadGraph_success[OF assms] state_of_def or_zero_def split: option.splits)

text \<open>C8 on a body that carries the counts 2 and 1.\<close>

theorem C8_statistics_after_load_witness:
  "res_success dangling \<and> res_nodes dangling = Some [acme, alice] \<and>
   res_edges dangling =
     Some [\<lparr>source = 99, target = 2, relation = employs, edge_description = None\<rparr>] \<and>
   distinct (map node_id [acme, alice]) \<and>
   nodeCount (state_of (loadGraph (Payload dangling) init)) = Some 2 \<and>
   edgeCount (state_of (loadGraph (Payload dangling) init)) = Some 1 \<and>
   typeCount (state_of (loadGraph (Payload dangling) init)) = Some 2"
proof -
  have h1: "res_success dangling" by (simp add: dangling_def)
  have h2: "res_nodes dangling = Some [acme, alice]" by (simp add: dangling_def)
  have h3: "res_edges dangling =
     Some [\<lparr>source = 99, target = 2, relation = employs, edge_description = None\<rparr>]"
    by (simp add: dangling_def)
  have h4: "distinct (map node_id [acme, alice])" by (simp add: acme_def alice_def)
  have c: "res_nodes_count dangling = Some 2" "res_edges_count dangling = Some 1"
    by (simp_all add: dangling_def)
  have t: "card (node_type ` set [acme, alice]) = 2"
    by (simp add: acme_def alice_def type_org_def type_person_def)
  show ?thesis
    using h1 h2 h3 h4 C8_statistics_after_load[OF h1 h2 h3 h4, of init]
    by (simp only: c t) simp
qed

subsection \<open>Reloads while a reload is pending\<close>

text \<open>
  C9, as the specification has it, on the fresh page: two reload requests in a row send
  two requests and leave two calls pending; the second is not dropped. When the two
  responses arrive, each replaces the snapshot, and the one that arrives last stays.
\<close>

theorem C9_second_reload_is_not_dropped:
  "run toLowerCase_ascii [Reload, Reload] (init :: int state, 0) = ((showLoading init, 2), [Fetch, Fetch]) \<and>
   graphData (fst (fst (run toLowerCase_ascii [Reload, Reload, Arrive (Payload acme_alice), Arrive (Payload self_loop)]
                          (init, 0)))) = Some self_loop \<and>
   graphData (fst (fst (run toLowerCase_ascii [Reload, Reload, Arrive (Payload self_loop), Arrive (Payload acme_alice)]
                          (init, 0)))) = Some acme_alice"
  by code_simp

text \<open>
  C9, amended: there is no limit on the reloads in flight. From any state and with any
  number of calls pending, \<open>n\<close> reload requests in a row send \<open>n\<close> requests and leave
  \<open>n\<close> more calls pending. When two reloads are requested and their responses \<open>a\<close> and
  \<open>b\<close>, both successful, arrive in this order, each replaces the snapshot: after the first
  the stores and the cached export are those of \<open>a\<close> and one call is still pending, after
  the second they are those of \<open>b\<close>; the network is given data twice. The response that
  arrives last determines the final snapshot.
\<close>

theorem C9_every_reload_runs_and_last_response_wins:
  assumes "res_success a" and "res_nodes a = Some ans" and "res_edges a = Some aes"
    and "distinct (map node_id ans)"
    and "res_success b" and "res_nodes b = Some bns" and "res_edges b = Some bes"
    and "distinct (map node_id bns)"
  shows "run toLowerCase (replicate n Reload) (s, pending) =
           ((if n = 0 then s else showLoading s, pending + n), replicate n Fetch) \<and>
         snd (fst (run toLowerCase [Reload, Reload, Arrive (Payload a)] (s, pending)))
           = pending + 1 \<and>
         graphData (fst (fst (run toLowerCase [Reload, Reload, Arrive (Payload a)] (s, pending))))
           = Some a \<and>
         nodes (fst (fst (run toLowerCase [Reload, Reload, Arrive (Payload a)] (s, pending))))
           = Some (map toNode ans) \<and>
         snd (fst (run toLowerCase [Reload, Reload, Arrive (Payload a), Arrive (Payload b)]
                     (s, pending))) = pending \<and>
         graphData (fst (fst (run toLowerCase
             [Reload, Reload, Arrive (Payload a), Arrive (Payload b)] (s, pending)))) = Some b \<and>
         nodes (fst (fst (run toLowerCase
             [Reload, Reload, Arrive (Payload a), Arrive (Payload b)] (s, pending))))
           = Some (map toNode bns) \<and>
         edges (fst (fst (run toLowerCase
             [Reload, Reload, Arrive (Payload a), Arrive (Payload b)] (s, pending))))
           = Some (map (\<lambda>(index, edge). toEdge edge index) (enumerate 0 bes)) \<and>
         snd (run toLowerCase [Reload, Reload, Arrive (Payload a), Arrive (Payload b)]
                (s, pending))
           = [Fetch, Fetch] @ (if network s = None then [NewNetwork] else [SetData]) @ [SetData]"
proof -
  note ra = loadGraph_resume_success[OF assms(1-4)]
  note rb = loadGraph_resume_success[OF assms(5-8)]
  show ?thesis
    by (simp add: run_reloads)
       (simp add: Let_def loadGraph_request_def showLoading_def state_of_def effects_of_def
          ra rb)
qed

text \<open>
  C9 on the fresh page with the two-node snapshot and the self-loop snapshot as
  responses, in both orders of arrival.
\<close>

theorem C9_every_reload_runs_and_last_response_wins_witness:
  "res_success acme_alice \<and> res_nodes acme_alice = Some [acme, alice] \<and>
   distinct (map node_id [acme, alice]) \<and>
   res_success self_loop \<and> res_nodes self_loop = Some [acme] \<and>
   distinct (map node_id [acme]) \<and>
   run toLowerCase_ascii [Reload, Reload, Reload] (init :: int state, 0) =
     ((showLoading init, 3), [Fetch, Fetch, Fetch]) \<and>
   graphData (fst (fst (run toLowerCase_ascii
       [Reload, Reload, Arrive (Payload acme_alice)] (init, 0)))) = Some acme_alice \<and>
   graphData (fst (fst (run toLowerCase_ascii
       [Reload, Reload, Arrive (Payload acme_alice), Arrive (Payload self_loop)] (init, 0))))
     = Some self_loop \<and>
   nodes (fst (fst (run toLowerCase_ascii
       [Reload, Reload, Arrive (Payload acme_alice), Arrive (Payload self_loop)] (init, 0))))
     = Some [toNode acme] \<and>
   snd (run toLowerCase_ascii
       [Reload, Reload, Arrive (Payload acme_alice), Arrive (Payload self_loop)] (init, 0))
     = [Fetch, Fetch, NewNetwork, SetData] \<and>
   graphData (fst (fst (run toLowerCase_ascii
       [Reload, Reload, Arrive (Payload self_loop), Arrive (Payload acme_alice)] (init, 0))))
     = Some acme_alice \<and>
   nodes (fst (fst (run toLowerCase_ascii
       [Reload, Reload, Arrive (Payload self_loop), Arrive (Payload acme_alice)] (init, 0))))
     = Some [toNode acme, toNode alice]"
proof -
  have a1: "res_success acme_alice" by (simp add: acme_alice_def)
  have a2: "res_nodes acme_alice = Some [acme, alice]" by (simp add: acme_alice_def)
  have a3: "res_edges acme_alice =
     Some [\<lparr>source = 1, target = 2, relation = employs, edge_description = None\<rparr>]"
    by (simp add: acme_alice_def)
  have a4: "distinct (map node_id [acme, alice])" by (simp add: acme_def alice_def)
  have b1: "res_success self_loop" by (simp add: self_loop_def)
  have b2: "res_nodes self_loop = Some [acme]" by (simp add: self_loop_def)
  have b3: "res_edges self_loop =
     Some [\<lparr>source = 1, target = 1, relation = employs, edge_description = None\<rparr>]"
    by (simp add: self_loop_def)
  have b4: "distinct (map node_id [acme])" by simp
  have l: "replicate 3 Reload = [Reload, Reload, Reload :: int event]"
    "replicate 3 Fetch = [Fetch, Fetch, Fetch :: int effect]"
    by (simp_all add: numeral_3_eq_3)
  have n: "network (init :: int state) = None" by (simp add: init_def)
  show ?thesis
    using a1 a2 a4 b1 b2 b4
      C9_every_reload_runs_and_last_response_wins[OF a1 a2 a3 a4 b1 b2 b3 b4,
        where toLowerCase = toLowerCase_ascii and n = 3 and s = init and pending = 0]
      C9_every_reload_runs_and_last_response_wins[OF b1 b2 b3 b4 a1 a2 a3 a4,
        where toLowerCase = toLowerCase_ascii and n = 3 and s = init and pending = 0]
    by (simp only: l n) simp
qed

subsection \<open>Before the first load\<close>

text \<open>
  C10: while \<open>nodes\<close>, \<open>network\<close> and \<open>graphData\<close> are unset, a search with any query, a
  fit and an export all return normally and leave the state as it is; the search and the
  fit make no call, the export shows the "load the graph first" alert and starts no
  download.
\<close>

theorem C10_no_op_before_first_load:
  assumes "nodes s = None" and "network s = None" and "graphData s = None"
  shows "searchEntity toLowerCase q s = (s, [], None) \<and> fitGraph s = (s, [], None) \<and>
         exportGraph s = (s, [AlertLoadFirst], None)"
  using assms by (simp add: searchEntity_def fitGraph_def exportGraph_def Let_def)

text \<open>C10 on the fresh page, with a query that is not empty and one that is.\<close>

theorem C10_no_op_before_first_load_witness:
  "nodes (init :: int state) = None \<and> network (init :: int state) = None \<and>
   graphData (init :: int state) = None \<and>
   searchEntity toLowerCase_ascii ''alice'' (init :: int state) = (init, [], None) \<and>
   searchEntity toLowerCase_ascii [] (init :: int state) = (init, [], None) \<and>
   fitGraph (init :: int state) = (init, [], None) \<and>
   exportGraph (init :: int state) = (init, [AlertLoadFirst], None)"
proof -
  have h1: "nodes (init :: int state) = None" by (simp add: init_def)
  have h2: "network (init :: int state) = None" by (simp add: init_def)
  have h3: "graphData (init :: int state) = None" by (simp add: init_def)
  show ?thesis
    using h1 h2 h3 C10_no_op_before_first_load[OF h1 h2 h3,
        where q = "''alice''" and toLowerCase = toLowerCase_ascii]
      C10_no_op_before_first_load[OF h1 h2 h3,
        where q = "[]" and toLowerCase = toLowerCase_ascii]
    by simp
qed

end
